theory Spec2Isabelle
  imports Complex_Main
begin

section \<open>captum.metrics.\_utils.batching: dividing samples into sub-batches\<close>

text \<open>
  The module holds one function, \<^verbatim>\<open>_divide_and_aggregate_metrics\<close>. It reads the
  batch size and the device of the first input, resolves how many samples per example
  one call of \<^verbatim>\<open>metric_func\<close> may take, and then loops: each iteration asks
  \<^verbatim>\<open>metric_func\<close> for the metric of the next slice and folds it into the running
  total with \<^verbatim>\<open>agg_func\<close>.

  Conventions of the embedding.
  \<^item> Python integers are unbounded: \<open>int\<close>. Python's \<^verbatim>\<open>//\<close> rounds towards minus
    infinity, as \<open>div\<close> on \<open>int\<close> does; division by zero raises.
  \<^item> A tensor is its device, its shape and its elements in row-major order. The
    elements are float32 values, the element type of \<^verbatim>\<open>torch.zeros\<close>: a finite value
    is the real number it stands for, and there are the two infinities and NaN.
    Arithmetic on them rounds to the nearest float32 value, ties to even. Other
    element types and their promotion are outside the model.
  \<^item> \<^verbatim>\<open>metric_func\<close> and \<^verbatim>\<open>agg_func\<close> belong to the caller. They are taken as
    total functions, so the model describes the calls in which both return; an
    exception raised inside one of them leaves the function unchanged and is not
    modelled.
  \<^item> What the function does besides returning a value is recorded: the warnings it
    emits, the widths it passes to \<^verbatim>\<open>metric_func\<close> in call order, and the number of
    calls of \<^verbatim>\<open>agg_func\<close>.
  \<^item> The \<^verbatim>\<open>while\<close> loop is a \<^theory_text>\<open>partial_function\<close> in the option monad:
    \<open>None\<close> is a loop that never ends.
\<close>

subsection \<open>Float32 numbers\<close>

text \<open>
  The values of IEEE 754 binary32. A finite value carries the real number it stands
  for; the finite float32 values are the multiples \<open>m * 2 ^ e\<close> with \<open>\<bar>m\<bar> < 2 ^ 24\<close>,
  \<open>e \<ge> -149\<close> and magnitude below \<open>2 ^ 128\<close> (\<open>Finite\<close> of another real is not a float32
  value). The two zeros are one value, as they are for \<^verbatim>\<open>==\<close>.
\<close>

datatype f32 = Finite real | PosInf | NegInf | NaN

text \<open>The number of binary digits of a positive integer (0 for the others).\<close>

function bit_length :: "int \<Rightarrow> nat" where
  "bit_length n = (if n \<le> 0 then 0 else Suc (bit_length (n div 2)))"
  by pat_completeness auto
termination
  by (relation "measure nat") auto

declare bit_length.simps [simp del]

text \<open>
  Rounding a real number to float32, to the nearest value and to the even one of two
  nearest. The float32 values around \<open>z\<close> are the multiples of \<open>step\<close>: with \<open>b\<close> the
  number of binary digits of \<open>\<lfloor>\<bar>z\<bar> * 2 ^ 149\<rfloor>\<close>, the step is \<open>2 ^ (b - 24) / 2 ^ 149\<close>
  when \<open>b > 24\<close> (24 significant digits) and \<open>1 / 2 ^ 149\<close> otherwise (the subnormal
  range; the subtraction on \<open>nat\<close> stops at 0). A result of magnitude \<open>2 ^ 128\<close> or more
  overflows to an infinity.
\<close>

definition round_f32 :: "real \<Rightarrow> f32" where
  "round_f32 z =
     (let s = bit_length \<lfloor>\<bar>z\<bar> * 2 ^ 149\<rfloor> - 24;
          step = 2 ^ s / 2 ^ 149;
          t = \<bar>z\<bar> / step;
          q = \<lfloor>t\<rfloor>;
          q' = (if t - of_int q > 1 / 2 \<or> (t - of_int q = 1 / 2 \<and> odd q) then q + 1 else q);
          mag = of_int q' * step
      in if 2 ^ 128 \<le> mag then (if z < 0 then NegInf else PosInf)
         else Finite (if z < 0 then - mag else mag))"

text \<open>Addition and multiplication: the exact result, rounded; the special values as in IEEE 754.\<close>

fun f32_add :: "f32 \<Rightarrow> f32 \<Rightarrow> f32" where
  "f32_add NaN _ = NaN"
| "f32_add _ NaN = NaN"
| "f32_add PosInf NegInf = NaN"
| "f32_add NegInf PosInf = NaN"
| "f32_add PosInf _ = PosInf"
| "f32_add _ PosInf = PosInf"
| "f32_add NegInf _ = NegInf"
| "f32_add _ NegInf = NegInf"
| "f32_add (Finite x) (Finite y) = round_f32 (x + y)"

fun f32_mul :: "f32 \<Rightarrow> f32 \<Rightarrow> f32" where
  "f32_mul NaN _ = NaN"
| "f32_mul _ NaN = NaN"
| "f32_mul (Finite x) (Finite y) = round_f32 (x * y)"
| "f32_mul (Finite x) PosInf = (if x = 0 then NaN else if 0 < x then PosInf else NegInf)"
| "f32_mul (Finite x) NegInf = (if x = 0 then NaN else if 0 < x then NegInf else PosInf)"
| "f32_mul PosInf (Finite y) = (if y = 0 then NaN else if 0 < y then PosInf else NegInf)"
| "f32_mul NegInf (Finite y) = (if y = 0 then NaN else if 0 < y then NegInf else PosInf)"
| "f32_mul PosInf PosInf = PosInf"
| "f32_mul NegInf NegInf = PosInf"
| "f32_mul PosInf NegInf = NegInf"
| "f32_mul NegInf PosInf = NegInf"

text \<open>An integer as a float32 value, as in \<^verbatim>\<open>V * k\<close> for a tensor \<open>V\<close> and an integer \<open>k\<close>.\<close>

definition f32_of_int :: "int \<Rightarrow> f32" where
  "f32_of_int k = round_f32 (of_int k)"

subsection \<open>Tensors, errors, warnings\<close>

datatype error = IndexError | ZeroDivisionError

record tensor =
  device :: string
  shape :: "nat list"
  elems :: "f32 list"

text \<open>
  The one warning of the module. Its message is a fixed text with two values formatted
  into it, \<^verbatim>\<open>max_examples_per_batch\<close> and the batch size; the constructor keeps the
  two values.
\<close>

datatype warning = Max_examples_per_batch_warning int int

text \<open>\<^verbatim>\<open>inputs[0]\<close> on a tuple: an empty tuple raises.\<close>

definition first_input :: "tensor list \<Rightarrow> error + tensor" where
  "first_input inputs = (case inputs of [] \<Rightarrow> Inl IndexError | t # _ \<Rightarrow> Inr t)"

text \<open>\<^verbatim>\<open>t.size(0)\<close>: a tensor without dimensions raises.\<close>

definition size0 :: "tensor \<Rightarrow> error + int" where
  "size0 t = (case shape t of [] \<Rightarrow> Inl IndexError | d # _ \<Rightarrow> Inr (int d))"

text \<open>Python's \<^verbatim>\<open>a // b\<close> on integers.\<close>

definition floordiv :: "int \<Rightarrow> int \<Rightarrow> error + int" where
  "floordiv a b = (if b = 0 then Inl ZeroDivisionError else Inr (a div b))"

text \<open>\<^verbatim>\<open>torch.zeros(bsz, device=device)\<close>: a vector of \<open>bsz\<close> zeros on the device.\<close>

definition torch_zeros :: "int \<Rightarrow> string \<Rightarrow> tensor" where
  "torch_zeros bsz dev =
     \<lparr>device = dev, shape = [nat bsz], elems = replicate (nat bsz) (Finite 0)\<rparr>"

text \<open>
  \<^verbatim>\<open>torch.add\<close>, the default \<^verbatim>\<open>agg_func\<close>, is a function of the tensor library, not of
  this module. What is described of it here: on two float32 tensors of the same shape
  on the same device it returns the elementwise float32 sum, on that device and with
  that shape. Its other cases (broadcasting of unequal shapes, the errors it raises for
  shapes that do not broadcast or for different devices) are not described: \<open>None\<close>.
\<close>

definition torch_add :: "tensor \<Rightarrow> tensor \<Rightarrow> tensor option" where
  "torch_add a b =
     (if device a = device b \<and> shape a = shape b \<and> length (elems a) = length (elems b)
      then Some (a\<lparr>elems := map2 f32_add (elems a) (elems b)\<rparr>)
      else None)"

subsection \<open>The loop\<close>

text \<open>
  The state of the loop: the two variables of the source, \<^verbatim>\<open>current_n_steps\<close> and
  \<^verbatim>\<open>metrics_sum\<close>, and the record of the calls made so far.
\<close>

record loop_state =
  current_n_steps :: int
  metrics_sum :: tensor
  metric_calls :: "int list"
  agg_calls :: nat

text \<open>
  One run of the loop body (lines 62 to 72 of the source):
  \<^verbatim>\<open>
  current_n_steps += max_inps_per_batch
  metric = metric_func(
      max_inps_per_batch
      if current_n_steps <= n_samples
      else max_inps_per_batch - (current_n_steps - n_samples)
  )
  current_n_steps = min(current_n_steps, n_samples)
  metrics_sum = agg_func(metrics_sum, metric)
  \<close>
\<close>

definition loop_body ::
  "int \<Rightarrow> int \<Rightarrow> (int \<Rightarrow> tensor) \<Rightarrow> (tensor \<Rightarrow> tensor \<Rightarrow> tensor) \<Rightarrow> loop_state \<Rightarrow> loop_state"
where
  "loop_body n_samples max_inps_per_batch metric_func agg_func s =
     (let steps = current_n_steps s + max_inps_per_batch;
          width = (if steps \<le> n_samples then max_inps_per_batch
                   else max_inps_per_batch - (steps - n_samples));
          metric = metric_func width
      in \<lparr>current_n_steps = min steps n_samples,
          metrics_sum = agg_func (metrics_sum s) metric,
          metric_calls = metric_calls s @ [width],
          agg_calls = Suc (agg_calls s)\<rparr>)"

text \<open>\<^verbatim>\<open>while current_n_steps < n_samples: ...\<close>\<close>

partial_function (option) while_loop ::
  "int \<Rightarrow> int \<Rightarrow> (int \<Rightarrow> tensor) \<Rightarrow> (tensor \<Rightarrow> tensor \<Rightarrow> tensor) \<Rightarrow> loop_state
     \<Rightarrow> loop_state option"
where
  "while_loop n_samples max_inps_per_batch metric_func agg_func s =
     (if current_n_steps s < n_samples
      then while_loop n_samples max_inps_per_batch metric_func agg_func
             (loop_body n_samples max_inps_per_batch metric_func agg_func s)
      else Some s)"

declare while_loop.simps [code]

text \<open>Lines 58 and 59: the state in which the loop starts.\<close>

definition initial_state :: "int \<Rightarrow> string \<Rightarrow> loop_state" where
  "initial_state bsz dev =
     \<lparr>current_n_steps = 0, metrics_sum = torch_zeros bsz dev,
      metric_calls = [], agg_calls = 0\<rparr>"

subsection \<open>The function\<close>

text \<open>
  What a call that returns leaves behind: the warnings emitted, the resolved
  \<^verbatim>\<open>max_inps_per_batch\<close>, and the state in which the loop ended. The value returned is
  the \<open>metrics_sum\<close> of that state.
\<close>

record run =
  warnings :: "warning list"
  max_inps_per_batch :: int
  final :: loop_state

definition returned :: "run \<Rightarrow> tensor" where
  "returned r = metrics_sum (final r)"

text \<open>Lines 37 to 50: the check of \<^verbatim>\<open>max_examples_per_batch\<close>.\<close>

definition check_max_examples :: "int \<Rightarrow> int \<Rightarrow> int option \<Rightarrow> error + warning list" where
  "check_max_examples bsz n_samples max_examples_per_batch =
     (case max_examples_per_batch of
        None \<Rightarrow> Inr []
      | Some cap \<Rightarrow>
          (case floordiv cap bsz of
             Inl e \<Rightarrow> Inl e
           | Inr q \<Rightarrow>
               if q < 1 \<or> q > n_samples
               then Inr [Max_examples_per_batch_warning cap bsz]
               else Inr []))"

text \<open>Lines 52 to 56: the number of samples per example of one sub-batch.\<close>

definition resolve_max_inps :: "int \<Rightarrow> int \<Rightarrow> int option \<Rightarrow> error + int" where
  "resolve_max_inps bsz n_samples max_examples_per_batch =
     (case max_examples_per_batch of
        None \<Rightarrow> Inr n_samples
      | Some cap \<Rightarrow>
          (case floordiv cap bsz of
             Inl e \<Rightarrow> Inl e
           | Inr q \<Rightarrow> Inr (min (max q 1) n_samples)))"

definition divide_and_aggregate_metrics ::
  "tensor list \<Rightarrow> int \<Rightarrow> (int \<Rightarrow> tensor) \<Rightarrow> (tensor \<Rightarrow> tensor \<Rightarrow> tensor) \<Rightarrow> int option
     \<Rightarrow> (error + run) option"
where
  "divide_and_aggregate_metrics inputs n_samples metric_func agg_func max_examples_per_batch =
     (case first_input inputs of
        Inl e \<Rightarrow> Some (Inl e)
      | Inr t \<Rightarrow>
     (case size0 t of
        Inl e \<Rightarrow> Some (Inl e)
      | Inr bsz \<Rightarrow>
     (case check_max_examples bsz n_samples max_examples_per_batch of
        Inl e \<Rightarrow> Some (Inl e)
      | Inr ws \<Rightarrow>
     (case resolve_max_inps bsz n_samples max_examples_per_batch of
        Inl e \<Rightarrow> Some (Inl e)
      | Inr width \<Rightarrow>
     (case while_loop n_samples width metric_func agg_func
             (initial_state bsz (device t)) of
        None \<Rightarrow> None
      | Some s \<Rightarrow> Some (Inr \<lparr>warnings = ws, max_inps_per_batch = width, final = s\<rparr>))))))"

subsection \<open>Notions used to state and prove the properties\<close>

text \<open>
  The widths that the loop passes to \<^verbatim>\<open>metric_func\<close> when it is entered with the
  counter at \<open>cur\<close>, as a list. The function is defined for every argument (it stops
  when the width is not positive), so it can be reasoned about by induction; that the
  loop passes exactly these widths is lemma \<open>while_loop_eq\<close>.
\<close>

function chunk_widths :: "int \<Rightarrow> int \<Rightarrow> int \<Rightarrow> int list" where
  "chunk_widths n cw cur =
     (if cur < n \<and> 0 < cw
      then (if cur + cw \<le> n then cw else cw - (cur + cw - n))
             # chunk_widths n cw (min (cur + cw) n)
      else [])"
  by pat_completeness auto
termination
  by (relation "measure (\<lambda>(n, cw, cur). nat (n - cur))") auto

declare chunk_widths.simps [simp del]

text \<open>The state after the loop has called \<^verbatim>\<open>metric_func\<close> with the widths \<open>ws\<close> in turn.\<close>

definition after_calls ::
  "(int \<Rightarrow> tensor) \<Rightarrow> (tensor \<Rightarrow> tensor \<Rightarrow> tensor) \<Rightarrow> int \<Rightarrow> int list \<Rightarrow> loop_state \<Rightarrow> loop_state"
where
  "after_calls metric_func agg_func n ws s =
     \<lparr>current_n_steps = max (current_n_steps s) n,
      metrics_sum = foldl (\<lambda>acc w. agg_func acc (metric_func w)) (metrics_sum s) ws,
      metric_calls = metric_calls s @ ws,
      agg_calls = agg_calls s + length ws\<rparr>"

text \<open>The quotient of two integers, rounded up.\<close>

definition ceil_div :: "int \<Rightarrow> int \<Rightarrow> int" where
  "ceil_div a b = \<lceil>real_of_int a / real_of_int b\<rceil>"

text \<open>
  The value of \<^verbatim>\<open>max_inps_per_batch\<close> when the division does not raise (lines 52 to 56
  without the error branch).
\<close>

definition resolved_width :: "int \<Rightarrow> int \<Rightarrow> int option \<Rightarrow> int" where
  "resolved_width bsz n cap =
     (case cap of None \<Rightarrow> n | Some c \<Rightarrow> min (max (c div bsz) 1) n)"

text \<open>
  The float32 sum \<open>0 + v + v + \<dots> + v\<close> of \<open>k\<close> copies of \<open>v\<close>, added one by one from the
  left, each addition rounded.
\<close>

definition sum_of_copies :: "nat \<Rightarrow> f32 \<Rightarrow> f32" where
  "sum_of_copies k v = ((\<lambda>acc. f32_add acc v) ^^ k) (Finite 0)"

subsection \<open>Example values\<close>

text \<open>An input of two examples with three features each, and a metric of two examples.\<close>

definition example_input :: tensor where
  "example_input =
     \<lparr>device = ''cpu'', shape = [2, 3],
      elems = [Finite 1, Finite 2, Finite 3, Finite 4, Finite 5, Finite 6]\<rparr>"

definition example_metric :: tensor where
  "example_metric = \<lparr>device = ''cpu'', shape = [2], elems = [Finite (1 / 2), Finite 3]\<rparr>"

text \<open>
  An aggregation function for the examples: the elementwise float32 sum over the
  common length of the operands. It is \<^verbatim>\<open>torch.add\<close> wherever \<^verbatim>\<open>torch.add\<close> is
  described (lemma \<open>torch_add_add_elementwise\<close>).
\<close>

definition add_elementwise :: "tensor \<Rightarrow> tensor \<Rightarrow> tensor" where
  "add_elementwise a b = a\<lparr>elems := map2 f32_add (elems a) (elems b)\<rparr>"

text \<open>
  A \<^verbatim>\<open>metric_func\<close> that returns, for every width, the vector of two elements
  \<^verbatim>\<open>0.1\<close> in float32: \<open>13421773 / 2 ^ 27\<close>, the float32 value nearest to one tenth.
\<close>

definition example_tenths :: "int \<Rightarrow> tensor" where
  "example_tenths w =
     \<lparr>device = ''cpu'', shape = [2],
      elems = [Finite (13421773 / 134217728), Finite (13421773 / 134217728)]\<rparr>"

section \<open>Properties\<close>

subsection \<open>Float32 rounding at some values\<close>

text \<open>
  One tenth rounds to \<open>13421773 / 2 ^ 27\<close>; a tie goes to the even neighbour; the
  largest finite value is \<open>2 ^ 128 - 2 ^ 104\<close>, and half a step above it overflows;
  below \<open>2 ^ -126\<close> the step is \<open>2 ^ -149\<close>.
\<close>

lemma round_f32_examples:
  "round_f32 (1 / 10) = Finite (13421773 / 134217728)"
  "round_f32 (1 / 3) = Finite (11184811 / 33554432)"
  "round_f32 (2 ^ 24 + 1) = Finite (2 ^ 24)"
  "round_f32 (2 ^ 24 + 3) = Finite (2 ^ 24 + 4)"
  "round_f32 (- (2 ^ 24 + 3)) = Finite (- (2 ^ 24 + 4))"
  "round_f32 (2 ^ 128 - 2 ^ 103 - 1) = Finite (2 ^ 128 - 2 ^ 104)"
  "round_f32 (2 ^ 128 - 2 ^ 103) = PosInf"
  "round_f32 (- (2 ^ 128)) = NegInf"
  "round_f32 (1 / 2 ^ 150) = Finite 0"
  "round_f32 (3 / 2 ^ 150) = Finite (2 / 2 ^ 149)"
  by (simp_all add: round_f32_def bit_length.simps Let_def)

subsection \<open>Rounding up\<close>

lemma ceil_div_last:
  assumes "0 < r" "r \<le> cw"
  shows "ceil_div r cw = 1"
proof -
  have "0 < real_of_int r / real_of_int cw" "real_of_int r / real_of_int cw \<le> 1"
    using assms by simp_all
  then show ?thesis
    by (simp add: ceil_div_def ceiling_eq_iff)
qed

lemma ceil_div_step:
  assumes "0 < cw"
  shows "ceil_div r cw = ceil_div (r - cw) cw + 1"
proof -
  have "real_of_int r / real_of_int cw = real_of_int (r - cw) / real_of_int cw + 1"
    using assms by (simp add: field_simps)
  then show ?thesis
    unfolding ceil_div_def by simp
qed

lemma ceil_div_pos:
  assumes "0 < cw" "0 < r"
  shows "0 < ceil_div r cw"
  using assms by (simp add: ceil_div_def)

lemma ceil_div_zero: "ceil_div 0 cw = 0"
  by (simp add: ceil_div_def)

subsection \<open>The loop passes the widths of \<open>chunk_widths\<close>\<close>

lemma while_loop_stop:
  "\<not> current_n_steps s < n \<Longrightarrow> while_loop n cw mf af s = Some s"
  by (subst while_loop.simps) simp

lemma while_loop_step:
  "current_n_steps s < n \<Longrightarrow>
     while_loop n cw mf af s = while_loop n cw mf af (loop_body n cw mf af s)"
  by (subst while_loop.simps) simp

lemma chunk_widths_Nil: "\<not> (cur < n \<and> 0 < cw) \<Longrightarrow> chunk_widths n cw cur = []"
  by (subst chunk_widths.simps) simp

lemma chunk_widths_Cons:
  "cur < n \<Longrightarrow> 0 < cw \<Longrightarrow>
     chunk_widths n cw cur =
       (if cur + cw \<le> n then cw else cw - (cur + cw - n)) # chunk_widths n cw (min (cur + cw) n)"
  by (subst chunk_widths.simps) simp

lemma while_loop_eq:
  assumes "0 < cw"
  shows "while_loop n cw mf af s =
           Some (after_calls mf af n (chunk_widths n cw (current_n_steps s)) s)"
proof (induction "nat (n - current_n_steps s)" arbitrary: s rule: less_induct)
  case less
  show ?case
  proof (cases "current_n_steps s < n")
    case False
    then show ?thesis
      by (simp add: while_loop_stop chunk_widths_Nil after_calls_def)
  next
    case True
    let ?s' = "loop_body n cw mf af s"
    have cur': "current_n_steps ?s' = min (current_n_steps s + cw) n"
      by (simp add: loop_body_def Let_def)
    have "nat (n - current_n_steps ?s') < nat (n - current_n_steps s)"
      using True assms cur' by auto
    then have IH: "while_loop n cw mf af ?s' =
        Some (after_calls mf af n (chunk_widths n cw (current_n_steps ?s')) ?s')"
      by (rule less)
    have "after_calls mf af n (chunk_widths n cw (current_n_steps ?s')) ?s' =
          after_calls mf af n (chunk_widths n cw (current_n_steps s)) s"
      using True assms
      by (subst (2) chunk_widths_Cons)
         (simp_all add: after_calls_def cur', simp_all add: loop_body_def Let_def)
    with IH True show ?thesis
      by (simp add: while_loop_step)
  qed
qed

text \<open>
  One run of the body with a positive width moves the counter strictly upwards and
  never beyond \<open>n_samples\<close>.
\<close>

lemma loop_body_progress:
  assumes "0 < cw" and "current_n_steps s < n"
  shows "current_n_steps s < current_n_steps (loop_body n cw mf af s)"
    and "current_n_steps (loop_body n cw mf af s) \<le> n"
  using assms by (simp_all add: loop_body_def Let_def)

lemma while_loop_not_entered:
  assumes "n \<le> current_n_steps s"
  shows "while_loop n cw mf af s =
           Some (after_calls mf af n (chunk_widths n cw (current_n_steps s)) s)"
  using assms by (simp add: while_loop_stop chunk_widths_Nil after_calls_def)

text \<open>
  With a width that is not positive the loop, once entered, never ends: divergence is
  a value of the model, and the positive width is what the termination of the loop
  rests on.
\<close>

lemma while_loop_diverges:
  assumes "cw \<le> 0" and "current_n_steps s < n"
  shows "while_loop n cw mf af s = None"
proof -
  have "\<not> (cw \<le> 0 \<and> current_n_steps s < n)" if eq: "while_loop n cw mf af s = Some y" for y
  proof (rule while_loop.raw_induct
      [where P = "\<lambda>n cw mf af s y. \<not> (cw \<le> 0 \<and> current_n_steps s < n)", OF _ eq])
    fix loop n cw mf af s and y :: loop_state
    assume IH: "\<And>n cw mf af s y. loop n cw mf af s = Some y
                  \<Longrightarrow> \<not> (cw \<le> 0 \<and> current_n_steps s < n)"
      and body: "(if current_n_steps s < n then loop n cw mf af (loop_body n cw mf af s)
                  else Some s) = Some y"
    show "\<not> (cw \<le> 0 \<and> current_n_steps s < n)"
    proof
      assume neg: "cw \<le> 0 \<and> current_n_steps s < n"
      then have call: "loop n cw mf af (loop_body n cw mf af s) = Some y"
        using body by simp
      have "current_n_steps (loop_body n cw mf af s) < n"
        using neg by (simp add: loop_body_def Let_def)
      with neg IH [OF call] show False
        by simp
    qed
  qed
  with assms show ?thesis
    by (cases "while_loop n cw mf af s") auto
qed

subsection \<open>The widths\<close>

lemma sum_list_chunk_widths:
  "0 < cw \<Longrightarrow> cur \<le> n \<Longrightarrow> sum_list (chunk_widths n cw cur) = n - cur"
proof (induction n cw cur rule: chunk_widths.induct)
  case (1 n cw cur)
  show ?case
  proof (cases "cur < n")
    case False
    with "1.prems" show ?thesis by (simp add: chunk_widths_Nil)
  next
    case True
    with "1.prems" "1.IH" show ?thesis
      by (simp add: chunk_widths_Cons min_def)
  qed
qed

lemma length_chunk_widths:
  "0 < cw \<Longrightarrow> cur \<le> n \<Longrightarrow>
     int (length (chunk_widths n cw cur)) = ceil_div (n - cur) cw"
proof (induction n cw cur rule: chunk_widths.induct)
  case (1 n cw cur)
  show ?case
  proof (cases "cur < n")
    case False
    with "1.prems" show ?thesis by (simp add: chunk_widths_Nil ceil_div_zero)
  next
    case True
    show ?thesis
    proof (cases "cur + cw \<le> n")
      case le: True
      have "int (length (chunk_widths n cw (cur + cw))) = ceil_div (n - (cur + cw)) cw"
        using "1.IH" "1.prems" True le by (simp add: min_def)
      moreover have "ceil_div (n - cur) cw = ceil_div (n - cur - cw) cw + 1"
        using "1.prems"(1) by (rule ceil_div_step)
      moreover have "n - cur - cw = n - (cur + cw)"
        by simp
      ultimately show ?thesis
        using True "1.prems" le by (simp add: chunk_widths_Cons min_def)
    next
      case gt: False
      have "ceil_div (n - cur) cw = 1"
        using True gt by (intro ceil_div_last) auto
      then show ?thesis
        using True "1.prems" gt by (simp add: chunk_widths_Cons min_def chunk_widths_Nil)
    qed
  qed
qed

lemma chunk_widths_bounds:
  "w \<in> set (chunk_widths n cw cur) \<Longrightarrow> 1 \<le> w \<and> w \<le> cw"
proof (induction n cw cur rule: chunk_widths.induct)
  case (1 n cw cur)
  show ?case
  proof (cases "cur < n \<and> 0 < cw")
    case False
    with "1.prems" show ?thesis by (simp add: chunk_widths_Nil)
  next
    case True
    with "1.prems" "1.IH" show ?thesis
      by (auto simp add: chunk_widths_Cons split: if_splits)
  qed
qed

lemma chunk_widths_explicit:
  "0 < cw \<Longrightarrow> cur < n \<Longrightarrow>
     chunk_widths n cw cur =
       replicate (nat (ceil_div (n - cur) cw - 1)) cw
         @ [n - cur - (ceil_div (n - cur) cw - 1) * cw]"
proof (induction n cw cur rule: chunk_widths.induct)
  case (1 n cw cur)
  show ?case
  proof (cases "cur + cw < n")
    case True
    define k' where "k' = ceil_div (n - (cur + cw)) cw"
    have IH: "chunk_widths n cw (cur + cw) =
        replicate (nat (k' - 1)) cw @ [n - (cur + cw) - (k' - 1) * cw]"
      using "1.IH" "1.prems" True by (simp add: min_def k'_def)
    have "ceil_div (n - cur) cw = ceil_div (n - cur - cw) cw + 1"
      using "1.prems"(1) by (rule ceil_div_step)
    moreover have "n - cur - cw = n - (cur + cw)"
      by simp
    ultimately have k: "ceil_div (n - cur) cw = k' + 1"
      by (simp add: k'_def)
    have kpos: "0 < k'"
      unfolding k'_def using "1.prems" True by (intro ceil_div_pos) auto
    then have "nat k' = Suc (nat (k' - 1))"
      by simp
    then have rep: "cw # replicate (nat (k' - 1)) cw = replicate (nat k') cw"
      by simp
    have "chunk_widths n cw cur = cw # chunk_widths n cw (cur + cw)"
      using "1.prems" True by (simp add: chunk_widths_Cons min_def)
    also have "\<dots> = replicate (nat k') cw @ [n - (cur + cw) - (k' - 1) * cw]"
      using IH rep by simp
    finally show ?thesis
      by (simp add: k algebra_simps)
  next
    case False
    have k: "ceil_div (n - cur) cw = 1"
      using "1.prems" False by (intro ceil_div_last) auto
    have "chunk_widths n cw cur = [n - cur]"
      using "1.prems" False by (auto simp add: chunk_widths_Cons min_def chunk_widths_Nil)
    then show ?thesis
      by (simp add: k)
  qed
qed

lemma length_le_sum_list:
  fixes ws :: "int list"
  assumes "\<And>w. w \<in> set ws \<Longrightarrow> 1 \<le> w"
  shows "int (length ws) \<le> sum_list ws"
  using assms by (induction ws) fastforce+

lemma length_chunk_widths_le:
  assumes "0 < cw"
  shows "length (chunk_widths n cw cur) \<le> nat (n - cur)"
proof (cases "cur \<le> n")
  case True
  have "int (length (chunk_widths n cw cur)) \<le> sum_list (chunk_widths n cw cur)"
    by (rule length_le_sum_list) (simp add: chunk_widths_bounds)
  with True assms show ?thesis
    by (simp add: sum_list_chunk_widths)
next
  case False
  then show ?thesis
    by (simp add: chunk_widths_Nil)
qed

subsection \<open>The loop, entered in the initial state\<close>

lemma after_calls_initial [simp]:
  "metric_calls (after_calls mf af n ws (initial_state bsz dev)) = ws"
  "agg_calls (after_calls mf af n ws (initial_state bsz dev)) = length ws"
  "metrics_sum (after_calls mf af n ws (initial_state bsz dev)) =
     foldl (\<lambda>acc w. af acc (mf w)) (torch_zeros bsz dev) ws"
  "current_n_steps (after_calls mf af n ws (initial_state bsz dev)) = max 0 n"
  by (simp_all add: after_calls_def initial_state_def)

lemma current_n_steps_initial [simp]: "current_n_steps (initial_state bsz dev) = 0"
  by (simp add: initial_state_def)

text \<open>
  Claim C1. For every \<open>n_samples \<ge> 1\<close> and every chunk width in \<open>[1, n_samples]\<close>, the
  loop ends, and the widths it has passed to \<^verbatim>\<open>metric_func\<close> add up to exactly
  \<open>n_samples\<close>: no sample is counted twice or skipped.
\<close>

theorem widths_sum_to_n_samples:
  assumes "1 \<le> n_samples" and "1 \<le> chunk_width" and "chunk_width \<le> n_samples"
  shows "\<exists>s. while_loop n_samples chunk_width metric_func agg_func (initial_state bsz dev) = Some s
           \<and> sum_list (metric_calls s) = n_samples"
proof -
  have "0 < chunk_width"
    using assms by simp
  then show ?thesis
    using assms by (simp add: while_loop_eq sum_list_chunk_widths)
qed

theorem widths_sum_to_n_samples_witness:
  "(1::int) \<le> 10 \<and> (1::int) \<le> 3 \<and> (3::int) \<le> 10 \<and>
   (\<exists>s. while_loop 10 3 (\<lambda>w. torch_zeros 2 ''cpu'') add_elementwise (initial_state 2 ''cpu'') = Some s
      \<and> sum_list (metric_calls s) = 10)"
  using widths_sum_to_n_samples [of 10 3 "\<lambda>w. torch_zeros 2 ''cpu''" add_elementwise 2 "''cpu''"]
  by simp

text \<open>
  Claim C2. For every \<open>n_samples \<ge> 1\<close> and every chunk width in \<open>[1, n_samples]\<close>, the
  loop runs exactly \<open>\<lceil>n_samples / chunk_width\<rceil>\<close> times: \<^verbatim>\<open>metric_func\<close> and
  \<^verbatim>\<open>agg_func\<close> are each called that many times.
\<close>

theorem iterations_eq_ceiling:
  assumes "1 \<le> n_samples" and "1 \<le> chunk_width" and "chunk_width \<le> n_samples"
  shows "\<exists>s. while_loop n_samples chunk_width metric_func agg_func (initial_state bsz dev) = Some s
           \<and> int (length (metric_calls s)) = \<lceil>real_of_int n_samples / real_of_int chunk_width\<rceil>
           \<and> int (agg_calls s) = \<lceil>real_of_int n_samples / real_of_int chunk_width\<rceil>"
proof -
  have "0 < chunk_width" "0 \<le> n_samples"
    using assms by simp_all
  then have "int (length (chunk_widths n_samples chunk_width 0)) =
               \<lceil>real_of_int n_samples / real_of_int chunk_width\<rceil>"
    using length_chunk_widths [of chunk_width 0 n_samples] by (simp add: ceil_div_def)
  with \<open>0 < chunk_width\<close> show ?thesis
    by (simp add: while_loop_eq)
qed

theorem iterations_eq_ceiling_witness:
  "(1::int) \<le> 10 \<and> (1::int) \<le> 3 \<and> (3::int) \<le> 10 \<and>
   (\<exists>s. while_loop 10 3 (\<lambda>w. torch_zeros 2 ''cpu'') add_elementwise (initial_state 2 ''cpu'') = Some s
      \<and> int (length (metric_calls s)) = 4 \<and> int (agg_calls s) = 4)"
  using iterations_eq_ceiling [of 10 3 "\<lambda>w. torch_zeros 2 ''cpu''" add_elementwise 2 "''cpu''"]
  by simp

text \<open>
  Claim C8. For every positive chunk width, also one greater than \<open>n_samples\<close>, the loop
  ends, from whatever state it is entered in: it returns a state in which the loop
  condition \<open>current_n_steps < n_samples\<close> is false, after at most
  \<open>n_samples - current_n_steps\<close> iterations. (The claim asks for \<open>n_samples \<ge> 1\<close>; the
  theorem needs no bound on \<open>n_samples\<close>.) That the counter grows strictly in every
  iteration and is clamped to \<open>n_samples\<close> is lemma \<open>loop_body_progress\<close>.
\<close>

theorem while_loop_terminates:
  assumes "1 \<le> chunk_width"
  shows "\<exists>s'. while_loop n_samples chunk_width metric_func agg_func s = Some s'
           \<and> \<not> current_n_steps s' < n_samples
           \<and> agg_calls s' \<le> agg_calls s + nat (n_samples - current_n_steps s)"
proof -
  have "0 < chunk_width"
    using assms by simp
  then show ?thesis
    by (simp add: while_loop_eq after_calls_def length_chunk_widths_le)
qed

theorem while_loop_terminates_witness:
  "(1::int) \<le> 7 \<and>
   (\<exists>s'. while_loop 3 7 (\<lambda>w. torch_zeros 2 ''cpu'') add_elementwise (initial_state 2 ''cpu'') = Some s'
      \<and> \<not> current_n_steps s' < 3
      \<and> agg_calls s' \<le> agg_calls (initial_state 2 ''cpu'')
            + nat (3 - current_n_steps (initial_state 2 ''cpu'')))"
  using while_loop_terminates
    [of 7 3 "\<lambda>w. torch_zeros 2 ''cpu''" add_elementwise "initial_state 2 ''cpu''"]
  by simp

text \<open>
  Claim C10. For every \<open>n_samples \<ge> 1\<close> and chunk width in \<open>[1, n_samples]\<close>, with
  \<open>k = \<lceil>n_samples / chunk_width\<rceil>\<close>: the widths passed to \<^verbatim>\<open>metric_func\<close> are \<open>k - 1\<close>
  times the chunk width and then \<open>n_samples - (k - 1) * chunk_width\<close>; the value returned
  is the left-nested fold of \<^verbatim>\<open>agg_func\<close> over the metrics of these widths, in call
  order, starting from the zero vector; and every width lies in \<open>[1, chunk_width]\<close>.
\<close>

theorem result_is_left_fold:
  assumes "1 \<le> n_samples" and "1 \<le> chunk_width" and "chunk_width \<le> n_samples"
    and "k = \<lceil>real_of_int n_samples / real_of_int chunk_width\<rceil>"
  shows "\<exists>s. while_loop n_samples chunk_width metric_func agg_func (initial_state bsz dev) = Some s
           \<and> metric_calls s =
               replicate (nat (k - 1)) chunk_width @ [n_samples - (k - 1) * chunk_width]
           \<and> metrics_sum s =
               foldl (\<lambda>acc w. agg_func acc (metric_func w)) (torch_zeros bsz dev) (metric_calls s)
           \<and> (\<forall>w \<in> set (metric_calls s). 1 \<le> w \<and> w \<le> chunk_width)"
proof -
  have pos: "0 < chunk_width" "0 < n_samples"
    using assms by simp_all
  have "chunk_widths n_samples chunk_width 0 =
          replicate (nat (k - 1)) chunk_width @ [n_samples - (k - 1) * chunk_width]"
    using chunk_widths_explicit [of chunk_width 0 n_samples] pos assms(4)
    by (simp add: ceil_div_def)
  moreover have "\<forall>w \<in> set (chunk_widths n_samples chunk_width 0). 1 \<le> w \<and> w \<le> chunk_width"
    using chunk_widths_bounds by blast
  ultimately show ?thesis
    using pos(1) by (simp add: while_loop_eq)
qed

theorem result_is_left_fold_witness:
  "(1::int) \<le> 10 \<and> (1::int) \<le> 3 \<and> (3::int) \<le> 10
   \<and> (4::int) = \<lceil>real_of_int 10 / real_of_int 3\<rceil>
   \<and> (\<exists>s. while_loop 10 3 (\<lambda>w. torch_zeros 2 ''cpu'') add_elementwise (initial_state 2 ''cpu'') = Some s
      \<and> metric_calls s = [3, 3, 3, 1]
      \<and> metrics_sum s =
           foldl (\<lambda>acc w. add_elementwise acc (torch_zeros 2 ''cpu'')) (torch_zeros 2 ''cpu'')
             (metric_calls s)
      \<and> (\<forall>w \<in> set (metric_calls s). 1 \<le> w \<and> w \<le> 3))"
  using result_is_left_fold [of 10 3 4 "\<lambda>w. torch_zeros 2 ''cpu''" add_elementwise 2 "''cpu''"]
  by (simp add: numeral_eq_Suc)


subsection \<open>Floor division by a positive batch size\<close>

lemma floor_quotient_lt_one_iff:
  fixes bsz cap :: int
  assumes "0 < bsz"
  shows "cap div bsz < 1 \<longleftrightarrow> cap < bsz"
  using assms pos_imp_zdiv_pos_iff [of bsz cap] by auto

lemma floor_quotient_gt_iff:
  fixes bsz cap n :: int
  assumes "0 < bsz"
  shows "n < cap div bsz \<longleftrightarrow> bsz * n + bsz \<le> cap"
proof -
  have "(cap + (- n) * bsz) div bsz = (- n) + cap div bsz"
    using assms by (intro div_mult_self1) simp
  then have "n < cap div bsz \<longleftrightarrow> 0 < (cap + (- n) * bsz) div bsz"
    by simp
  also have "\<dots> \<longleftrightarrow> bsz \<le> cap + (- n) * bsz"
    using assms by (rule pos_imp_zdiv_pos_iff)
  also have "\<dots> \<longleftrightarrow> bsz * n + bsz \<le> cap"
    by (simp add: algebra_simps)
  finally show ?thesis .
qed

subsection \<open>The function as a whole\<close>

lemma resolved_width_pos: "1 \<le> n \<Longrightarrow> 1 \<le> resolved_width bsz n cap"
  by (simp add: resolved_width_def split: option.splits)

lemma resolved_width_le: "resolved_width bsz n cap \<le> n"
  by (simp add: resolved_width_def split: option.splits)

lemma resolve_max_inps_eq:
  "cap = None \<or> bsz \<noteq> 0 \<Longrightarrow> resolve_max_inps bsz n cap = Inr (resolved_width bsz n cap)"
  by (auto simp add: resolve_max_inps_def resolved_width_def floordiv_def split: option.splits)

lemma check_max_examples_eq:
  "cap = None \<or> bsz \<noteq> 0 \<Longrightarrow>
     check_max_examples bsz n cap =
       Inr (case cap of None \<Rightarrow> []
            | Some c \<Rightarrow> if c div bsz < 1 \<or> n < c div bsz
                        then [Max_examples_per_batch_warning c bsz] else [])"
  by (auto simp add: check_max_examples_def floordiv_def split: option.splits)

lemma while_loop_resolved:
  "while_loop n (resolved_width bsz n cap) mf af (initial_state bsz' dev) =
     Some (after_calls mf af n (chunk_widths n (resolved_width bsz n cap) 0) (initial_state bsz' dev))"
proof (cases "1 \<le> n")
  case True
  then have "0 < resolved_width bsz n cap"
    using resolved_width_pos [of n bsz cap] by simp
  then show ?thesis
    using while_loop_eq [of "resolved_width bsz n cap" n mf af "initial_state bsz' dev"] by simp
next
  case False
  then show ?thesis
    using while_loop_not_entered [of n "initial_state bsz' dev" "resolved_width bsz n cap" mf af]
    by simp
qed

lemma divide_and_aggregate_metrics_eq:
  assumes "first_input inputs = Inr t" and "size0 t = Inr bsz"
    and "cap = None \<or> bsz \<noteq> 0"
  shows "divide_and_aggregate_metrics inputs n mf af cap =
     Some (Inr \<lparr>warnings =
                  (case cap of None \<Rightarrow> []
                   | Some c \<Rightarrow> if c div bsz < 1 \<or> n < c div bsz
                               then [Max_examples_per_batch_warning c bsz] else []),
                max_inps_per_batch = resolved_width bsz n cap,
                final = after_calls mf af n (chunk_widths n (resolved_width bsz n cap) 0)
                          (initial_state bsz (device t))\<rparr>)"
  using assms
  by (simp add: divide_and_aggregate_metrics_def check_max_examples_eq resolve_max_inps_eq
      while_loop_resolved)

text \<open>
  Claim C3. For every \<open>bsz \<ge> 1\<close>, \<open>n_samples \<ge> 1\<close> and every
  \<^verbatim>\<open>max_examples_per_batch\<close> (any integer, or \<open>None\<close>), the call returns and the
  resolved \<^verbatim>\<open>max_inps_per_batch\<close> lies in \<open>[1, n_samples]\<close>; it is
  \<open>min (max (max_examples_per_batch // bsz) 1) n_samples\<close> when the cap is present and
  \<open>n_samples\<close> when it is absent.
\<close>

theorem max_inps_per_batch_clamped:
  assumes "first_input inputs = Inr t" and "size0 t = Inr bsz"
    and "1 \<le> bsz" and "1 \<le> n_samples"
  shows "\<exists>r. divide_and_aggregate_metrics inputs n_samples metric_func agg_func
                max_examples_per_batch = Some (Inr r)
           \<and> 1 \<le> max_inps_per_batch r \<and> max_inps_per_batch r \<le> n_samples
           \<and> max_inps_per_batch r =
               (case max_examples_per_batch of
                  None \<Rightarrow> n_samples
                | Some cap \<Rightarrow> min (max (cap div bsz) 1) n_samples)"
proof -
  have "max_examples_per_batch = None \<or> bsz \<noteq> 0"
    using assms(3) by simp
  then show ?thesis
    using assms(1,2,4) resolved_width_pos [of n_samples bsz max_examples_per_batch]
      resolved_width_le [of bsz n_samples max_examples_per_batch]
    by (simp add: divide_and_aggregate_metrics_eq) (simp add: resolved_width_def)
qed

theorem max_inps_per_batch_clamped_witness:
  "first_input [example_input] = Inr example_input \<and> size0 example_input = Inr 2
   \<and> (1::int) \<le> 2 \<and> (1::int) \<le> 10
   \<and> (\<exists>r. divide_and_aggregate_metrics [example_input] 10 (\<lambda>w. torch_zeros 2 ''cpu'') add_elementwise
             (Some 5) = Some (Inr r)
        \<and> 1 \<le> max_inps_per_batch r \<and> max_inps_per_batch r \<le> 10
        \<and> max_inps_per_batch r = 2)"
  using max_inps_per_batch_clamped
    [of "[example_input]" example_input 2 10 "\<lambda>w. torch_zeros 2 ''cpu''" add_elementwise "Some 5"]
  by (simp add: first_input_def size0_def example_input_def)

text \<open>
  The loop-level properties hold for every call of the function that meets the
  invariants of its arguments: the widths passed to \<^verbatim>\<open>metric_func\<close> add up to
  \<open>n_samples\<close>, and there are \<open>\<lceil>n_samples / max_inps_per_batch\<rceil>\<close> of them.
\<close>

lemma divide_and_aggregate_metrics_covers:
  assumes "first_input inputs = Inr t" and "size0 t = Inr bsz"
    and "cap = None \<or> 1 \<le> bsz" and "1 \<le> n"
  shows "\<exists>r. divide_and_aggregate_metrics inputs n mf af cap = Some (Inr r)
           \<and> sum_list (metric_calls (final r)) = n
           \<and> int (length (metric_calls (final r))) =
               \<lceil>real_of_int n / real_of_int (max_inps_per_batch r)\<rceil>"
proof -
  have cap: "cap = None \<or> bsz \<noteq> 0"
    using assms(3) by auto
  have pos: "0 < resolved_width bsz n cap"
    using resolved_width_pos [OF assms(4), of bsz cap] by simp
  have "int (length (chunk_widths n (resolved_width bsz n cap) 0)) =
          \<lceil>real_of_int n / real_of_int (resolved_width bsz n cap)\<rceil>"
    using length_chunk_widths [of "resolved_width bsz n cap" 0 n] pos assms(4)
    by (simp add: ceil_div_def)
  moreover have "sum_list (chunk_widths n (resolved_width bsz n cap) 0) = n"
    using sum_list_chunk_widths [of "resolved_width bsz n cap" 0 n] pos assms(4) by simp
  ultimately show ?thesis
    using assms(1,2) cap by (simp add: divide_and_aggregate_metrics_eq)
qed

text \<open>
  Claim C4. For a batch size \<open>bsz \<ge> 1\<close> (with \<open>bsz = 0\<close> and a cap the division raises),
  the call emits the warning exactly once when \<^verbatim>\<open>max_examples_per_batch\<close> is present and
  \<open>max_examples_per_batch // bsz < 1\<close> or \<open>max_examples_per_batch // bsz > n_samples\<close>, and
  emits nothing in every other case, also when the cap is absent. Whether or not the
  warning is emitted, \<^verbatim>\<open>max_inps_per_batch\<close> is the clamped quotient and the state
  returned is the one the loop computes from that width.
\<close>

theorem warning_iff_quotient_out_of_range:
  assumes "first_input inputs = Inr t" and "size0 t = Inr bsz" and "1 \<le> bsz"
  shows "\<exists>r. divide_and_aggregate_metrics inputs n_samples metric_func agg_func
                max_examples_per_batch = Some (Inr r)
           \<and> warnings r =
               (case max_examples_per_batch of
                  None \<Rightarrow> []
                | Some cap \<Rightarrow>
                    if cap div bsz < 1 \<or> cap div bsz > n_samples
                    then [Max_examples_per_batch_warning cap bsz] else [])
           \<and> max_inps_per_batch r =
               (case max_examples_per_batch of
                  None \<Rightarrow> n_samples
                | Some cap \<Rightarrow> min (max (cap div bsz) 1) n_samples)
           \<and> while_loop n_samples (max_inps_per_batch r) metric_func agg_func
                 (initial_state bsz (device t)) = Some (final r)"
proof -
  have "max_examples_per_batch = None \<or> bsz \<noteq> 0"
    using assms(3) by simp
  then show ?thesis
    using assms(1,2) while_loop_resolved [of n_samples bsz max_examples_per_batch]
    by (simp add: divide_and_aggregate_metrics_eq) (simp add: resolved_width_def)
qed

theorem warning_iff_quotient_out_of_range_witness:
  "first_input [example_input] = Inr example_input \<and> size0 example_input = Inr 2
   \<and> (1::int) \<le> 2
   \<and> (\<exists>r. divide_and_aggregate_metrics [example_input] 10 (\<lambda>w. torch_zeros 2 ''cpu'') add_elementwise
             (Some 1) = Some (Inr r)
        \<and> warnings r = [Max_examples_per_batch_warning 1 2]
        \<and> max_inps_per_batch r = 1
        \<and> while_loop 10 (max_inps_per_batch r) (\<lambda>w. torch_zeros 2 ''cpu'') add_elementwise
             (initial_state 2 (device example_input)) = Some (final r))"
  using warning_iff_quotient_out_of_range
    [of "[example_input]" example_input 2 10 "\<lambda>w. torch_zeros 2 ''cpu''" add_elementwise "Some 1"]
  by (simp add: first_input_def size0_def example_input_def)

text \<open>
  Claim C5 as stated fails: it says that the warning fires exactly when the cap lies
  outside \<open>[bsz, bsz * n_samples]\<close>. With \<open>bsz = 2\<close>, \<open>n_samples = 10\<close> and a cap of
  \<open>21\<close> the cap is above \<open>bsz * n_samples = 20\<close>, but \<open>21 // 2 = 10\<close> is not above
  \<open>n_samples\<close>, so no warning is emitted.
\<close>

theorem warning_cap_counterexample:
  "check_max_examples 2 10 (Some 21) = Inr []
   \<and> (21::int) > 2 * 10
   \<and> ((21::int) div 2 < 1 \<or> (21::int) div 2 > 10) \<noteq> ((21::int) < 2 \<or> (21::int) > 2 * 10)"
  by (simp add: check_max_examples_def floordiv_def)

text \<open>
  Claim C5, amended. For every \<open>bsz \<ge> 1\<close>, \<open>n_samples \<ge> 1\<close> and every present cap, the
  warning fires iff the cap lies outside \<open>[bsz, bsz * n_samples + bsz - 1]\<close>: the
  condition of the code, \<open>cap // bsz < 1 \<or> cap // bsz > n_samples\<close>, holds iff
  \<open>cap < bsz\<close> or \<open>cap \<ge> bsz * n_samples + bsz\<close>.
\<close>

theorem warning_iff_cap_out_of_range:
  assumes "1 \<le> bsz" and "1 \<le> n_samples"
  shows "check_max_examples bsz n_samples (Some cap) =
           Inr (if cap < bsz \<or> bsz * n_samples + bsz \<le> cap
                then [Max_examples_per_batch_warning cap bsz] else [])
         \<and> ((cap div bsz < 1 \<or> cap div bsz > n_samples)
              \<longleftrightarrow> (cap < bsz \<or> bsz * n_samples + bsz \<le> cap))"
proof -
  have pos: "0 < bsz"
    using assms(1) by simp
  have "Some cap = None \<or> bsz \<noteq> 0"
    using pos by simp
  then show ?thesis
    by (simp add: check_max_examples_eq floor_quotient_lt_one_iff [OF pos]
        floor_quotient_gt_iff [OF pos])
qed

theorem warning_iff_cap_out_of_range_witness:
  "(1::int) \<le> 2 \<and> (1::int) \<le> 10
   \<and> check_max_examples 2 10 (Some 22) = Inr [Max_examples_per_batch_warning 22 2]
   \<and> (((22::int) div 2 < 1 \<or> (22::int) div 2 > 10) = True)"
  using warning_iff_cap_out_of_range [of 2 10 22] by simp


lemma chunk_widths_single: "1 \<le> n \<Longrightarrow> chunk_widths n n 0 = [n]"
  by (simp add: chunk_widths_Cons chunk_widths_Nil)

text \<open>
  Claim C6. For every \<open>n_samples \<ge> 1\<close>, when \<^verbatim>\<open>max_examples_per_batch\<close> is \<open>None\<close> the
  call returns after exactly one iteration: \<^verbatim>\<open>metric_func\<close> is called once, with the
  width \<open>n_samples\<close>, and \<^verbatim>\<open>agg_func\<close> once.
\<close>

theorem no_cap_single_call:
  assumes "first_input inputs = Inr t" and "size0 t = Inr bsz" and "1 \<le> n_samples"
  shows "\<exists>r. divide_and_aggregate_metrics inputs n_samples metric_func agg_func None = Some (Inr r)
           \<and> metric_calls (final r) = [n_samples]
           \<and> agg_calls (final r) = 1"
  using assms
  by (simp add: divide_and_aggregate_metrics_eq resolved_width_def chunk_widths_single)

theorem no_cap_single_call_witness:
  "first_input [example_input] = Inr example_input \<and> size0 example_input = Inr 2
   \<and> (1::int) \<le> 10
   \<and> (\<exists>r. divide_and_aggregate_metrics [example_input] 10 (\<lambda>w. torch_zeros 2 ''cpu'') add_elementwise
             None = Some (Inr r)
        \<and> metric_calls (final r) = [10]
        \<and> agg_calls (final r) = 1)"
  using no_cap_single_call
    [of "[example_input]" example_input 2 10 "\<lambda>w. torch_zeros 2 ''cpu''" add_elementwise]
  by (simp add: first_input_def size0_def example_input_def)

text \<open>
  Claim C9. If \<open>n_samples \<le> 0\<close>, the call does not raise (for a batch size \<open>bsz \<ge> 1\<close>,
  or without a cap: with \<open>bsz = 0\<close> and a cap the division raises before the loop):
  the loop body never runs, \<^verbatim>\<open>metric_func\<close> and \<^verbatim>\<open>agg_func\<close> are never called, and
  the value returned is \<^verbatim>\<open>torch.zeros(bsz)\<close> on the device of the inputs.
\<close>

theorem no_samples_returns_zeros:
  assumes "first_input inputs = Inr t" and "size0 t = Inr bsz"
    and "max_examples_per_batch = None \<or> 1 \<le> bsz"
    and "n_samples \<le> 0"
  shows "\<exists>r. divide_and_aggregate_metrics inputs n_samples metric_func agg_func
                max_examples_per_batch = Some (Inr r)
           \<and> metric_calls (final r) = []
           \<and> agg_calls (final r) = 0
           \<and> returned r = torch_zeros bsz (device t)"
proof -
  have "max_examples_per_batch = None \<or> bsz \<noteq> 0"
    using assms(3) by auto
  moreover have "chunk_widths n_samples (resolved_width bsz n_samples max_examples_per_batch) 0 = []"
    using assms(4) by (simp add: chunk_widths_Nil)
  ultimately show ?thesis
    using assms(1,2) by (simp add: divide_and_aggregate_metrics_eq returned_def)
qed

theorem no_samples_returns_zeros_witness:
  "first_input [example_input] = Inr example_input \<and> size0 example_input = Inr 2
   \<and> (Some (5::int) = None \<or> (1::int) \<le> 2) \<and> (0::int) \<le> 0
   \<and> (\<exists>r. divide_and_aggregate_metrics [example_input] 0 (\<lambda>w. torch_zeros 2 ''cpu'') add_elementwise
             (Some 5) = Some (Inr r)
        \<and> metric_calls (final r) = []
        \<and> agg_calls (final r) = 0
        \<and> returned r = torch_zeros 2 (device example_input))"
  using no_samples_returns_zeros
    [of "[example_input]" example_input 2 "Some 5" 0 "\<lambda>w. torch_zeros 2 ''cpu''" add_elementwise]
  by (simp add: first_input_def size0_def example_input_def)

subsection \<open>The default aggregation\<close>

lemma torch_add_add_elementwise: "torch_add a b = Some c \<Longrightarrow> add_elementwise a b = c"
  by (auto simp add: torch_add_def add_elementwise_def split: if_splits)

lemma funpow_f32_add_step:
  "((\<lambda>acc. f32_add acc v) ^^ n) (f32_add x v) = f32_add (((\<lambda>acc. f32_add acc v) ^^ n) x) v"
  using funpow_swap1 [of "\<lambda>acc. f32_add acc v" n x] by simp

lemma map2_funpow_step:
  assumes "length xs = length vs"
  shows "map2 (\<lambda>x v. ((\<lambda>acc. f32_add acc v) ^^ n) x) (map2 f32_add xs vs) vs =
         map2 (\<lambda>x v. ((\<lambda>acc. f32_add acc v) ^^ Suc n) x) xs vs"
  using assms by (induction xs vs rule: list_induct2) (simp_all add: funpow_f32_add_step)

lemma map2_keep_first:
  assumes "length xs = length vs"
  shows "map2 (\<lambda>x v. x) xs vs = xs"
  using assms by (induction xs vs rule: list_induct2) simp_all

lemma map2_replicate_zero:
  "map2 (\<lambda>x v. ((\<lambda>acc. f32_add acc v) ^^ n) x) (replicate (length vs) (Finite 0)) vs =
     map (sum_of_copies n) vs"
  by (induction vs) (simp_all add: sum_of_copies_def)

text \<open>
  Folding a constant metric \<open>V\<close> into an accumulator of the same shape on the same
  device, with an \<^verbatim>\<open>agg_func\<close> that is \<^verbatim>\<open>torch.add\<close>: every call is one that
  \<^verbatim>\<open>torch.add\<close> is described for, and each element has had its element of \<open>V\<close> added
  once per call.
\<close>

lemma foldl_torch_add_const:
  assumes agg: "\<And>a b c. torch_add a b = Some c \<Longrightarrow> agg_func a b = c"
    and "device a = device V" and "shape a = shape V"
    and "length (elems a) = length (elems V)"
  shows "foldl (\<lambda>acc w. agg_func acc V) a ws =
           a\<lparr>elems := map2 (\<lambda>x v. ((\<lambda>acc. f32_add acc v) ^^ length ws) x) (elems a) (elems V)\<rparr>"
  using assms(2-4)
proof (induction ws arbitrary: a)
  case Nil
  then show ?case
    by (simp add: map2_keep_first)
next
  case (Cons w ws)
  let ?a' = "a\<lparr>elems := map2 f32_add (elems a) (elems V)\<rparr>"
  have "torch_add a V = Some ?a'"
    using Cons.prems by (simp add: torch_add_def)
  then have step: "agg_func a V = ?a'"
    by (rule agg)
  have "foldl (\<lambda>acc w. agg_func acc V) ?a' ws =
          ?a'\<lparr>elems := map2 (\<lambda>x v. ((\<lambda>acc. f32_add acc v) ^^ length ws) x) (elems ?a') (elems V)\<rparr>"
    using Cons.prems by (intro Cons.IH) simp_all
  also have "\<dots> =
      a\<lparr>elems := map2 (\<lambda>x v. ((\<lambda>acc. f32_add acc v) ^^ Suc (length ws)) x) (elems a) (elems V)\<rparr>"
    using map2_funpow_step [OF Cons.prems(3), of "length ws"] by simp
  finally show ?case
    using step by simp
qed

text \<open>Where none of the additions rounds, the sum of \<open>k\<close> copies is the \<open>k\<close>-fold value.\<close>

lemma sum_of_copies_exact:
  assumes "\<And>j. j < k \<Longrightarrow> f32_add (Finite (real j * x)) (Finite x) = Finite (real (Suc j) * x)"
  shows "sum_of_copies k (Finite x) = Finite (real k * x)"
  using assms
proof (induction k)
  case 0
  then show ?case
    by (simp add: sum_of_copies_def)
next
  case (Suc k)
  have "sum_of_copies k (Finite x) = Finite (real k * x)"
    using Suc.prems by (intro Suc.IH) simp
  moreover have "f32_add (Finite (real k * x)) (Finite x) = Finite (real (Suc k) * x)"
    using Suc.prems [of k] by simp
  ultimately show ?case
    by (simp add: sum_of_copies_def)
qed

text \<open>
  Claim C7 as stated fails: it says that with \<^verbatim>\<open>torch.add\<close> and a \<^verbatim>\<open>metric_func\<close> that
  always returns \<open>V\<close> the value returned is \<open>V\<close> multiplied by the number of iterations.
  The running total is a float32 tensor and every addition rounds. With a batch of two
  examples, \<open>n_samples = 10\<close>, a cap of \<open>2\<close> (so a width of \<open>1\<close> and ten iterations) and
  \<open>V\<close> the vector of two elements \<^verbatim>\<open>0.1\<close>, the value returned holds \<open>8388609 / 8388608\<close>
  in both elements. That is neither the float32 product of \<^verbatim>\<open>0.1\<close> and \<open>10\<close>, which is
  \<open>1\<close>, nor the exact product.
\<close>

theorem constant_metric_counterexample:
  "divide_and_aggregate_metrics [example_input] 10 example_tenths add_elementwise (Some 2) =
     Some (Inr \<lparr>warnings = [], max_inps_per_batch = 1,
                final = \<lparr>current_n_steps = 10,
                         metrics_sum =
                           \<lparr>device = ''cpu'', shape = [2],
                            elems = [Finite (8388609 / 8388608), Finite (8388609 / 8388608)]\<rparr>,
                         metric_calls = [1, 1, 1, 1, 1, 1, 1, 1, 1, 1],
                         agg_calls = 10\<rparr>\<rparr>)
   \<and> f32_mul (Finite (13421773 / 134217728)) (f32_of_int 10) = Finite 1
   \<and> (8388609 / 8388608 :: real) \<noteq> 1
   \<and> (8388609 / 8388608 :: real) \<noteq> 10 * (13421773 / 134217728)"
  by (simp add: divide_and_aggregate_metrics_def first_input_def size0_def example_input_def
      check_max_examples_def resolve_max_inps_def floordiv_def initial_state_def torch_zeros_def
      while_loop.simps loop_body_def Let_def example_tenths_def add_elementwise_def
      round_f32_def bit_length.simps f32_of_int_def numeral_2_eq_2)

text \<open>
  Claim C7, amended. With an \<^verbatim>\<open>agg_func\<close> that is \<^verbatim>\<open>torch.add\<close> and a \<^verbatim>\<open>metric_func\<close>
  that returns the same float32 vector \<open>V\<close> of shape \<open>[bsz]\<close>, on the device of the
  inputs, for every width, the value returned is, element by element, the float32 sum
  \<open>0 + v + \<dots> + v\<close> of \<open>k = \<lceil>n_samples / max_inps_per_batch\<rceil>\<close> copies of the element,
  added from the left with every addition rounded. In an element for which none of the
  \<open>k\<close> additions rounds it is the element multiplied by \<open>k\<close>.
\<close>

theorem constant_metric_sum_of_copies:
  assumes "first_input inputs = Inr t" and "size0 t = Inr bsz"
    and "1 \<le> bsz" and "1 \<le> n_samples"
    and "\<And>w. metric_func w = V"
    and "device V = device t" and "shape V = [nat bsz]" and "length (elems V) = nat bsz"
    and "\<And>a b c. torch_add a b = Some c \<Longrightarrow> agg_func a b = c"
  shows "\<exists>r k. divide_and_aggregate_metrics inputs n_samples metric_func agg_func
                  max_examples_per_batch = Some (Inr r)
           \<and> int k = \<lceil>real_of_int n_samples / real_of_int (max_inps_per_batch r)\<rceil>
           \<and> returned r = V\<lparr>elems := map (sum_of_copies k) (elems V)\<rparr>
           \<and> (\<forall>i < length (elems V). \<forall>x.
                 elems V ! i = Finite x
                 \<and> (\<forall>j < k. f32_add (Finite (real j * x)) (Finite x) = Finite (real (Suc j) * x))
                 \<longrightarrow> elems (returned r) ! i = Finite (real k * x))"
proof -
  define cw where "cw = resolved_width bsz n_samples max_examples_per_batch"
  define ws where "ws = chunk_widths n_samples cw 0"
  define k where "k = length ws"
  define res where "res = V\<lparr>elems := map (sum_of_copies k) (elems V)\<rparr>"
  have cap: "max_examples_per_batch = None \<or> bsz \<noteq> 0"
    using assms(3) by simp
  have pos: "0 < cw"
    using resolved_width_pos [OF assms(4), of bsz max_examples_per_batch] by (simp add: cw_def)
  have "int (length ws) = ceil_div n_samples cw"
    using length_chunk_widths [of cw 0 n_samples] pos assms(4) by (simp add: ws_def)
  then have count: "int k = \<lceil>real_of_int n_samples / real_of_int cw\<rceil>"
    by (simp add: k_def ceil_div_def)
  have mf: "metric_func = (\<lambda>w. V)"
    using assms(5) by (simp add: fun_eq_iff)
  have "foldl (\<lambda>acc w. agg_func acc V) (torch_zeros bsz (device t)) ws =
          (torch_zeros bsz (device t))
            \<lparr>elems := map2 (\<lambda>x v. ((\<lambda>acc. f32_add acc v) ^^ length ws) x)
                         (elems (torch_zeros bsz (device t))) (elems V)\<rparr>"
    using assms(6,7,8) by (intro foldl_torch_add_const assms(9)) (simp_all add: torch_zeros_def)
  also have "\<dots> = res"
    using assms(6,7,8) map2_replicate_zero [of "length ws" "elems V"]
    by (simp add: torch_zeros_def res_def k_def)
  finally have fold: "foldl (\<lambda>acc w. agg_func acc V) (torch_zeros bsz (device t)) ws = res" .
  have run: "divide_and_aggregate_metrics inputs n_samples metric_func agg_func
               max_examples_per_batch =
             Some (Inr \<lparr>warnings =
                          (case max_examples_per_batch of None \<Rightarrow> []
                           | Some c \<Rightarrow> if c div bsz < 1 \<or> n_samples < c div bsz
                                       then [Max_examples_per_batch_warning c bsz] else []),
                        max_inps_per_batch = cw,
                        final = after_calls metric_func agg_func n_samples ws
                                  (initial_state bsz (device t))\<rparr>)"
    using assms(1,2) cap by (simp add: divide_and_aggregate_metrics_eq cw_def ws_def)
  have exact: "elems res ! i = Finite (real k * x)"
    if "i < length (elems V)" and "elems V ! i = Finite x"
      and "\<forall>j < k. f32_add (Finite (real j * x)) (Finite x) = Finite (real (Suc j) * x)"
    for i x
  proof -
    have "elems res ! i = sum_of_copies k (Finite x)"
      using that(1,2) by (simp add: res_def)
    also have "\<dots> = Finite (real k * x)"
      using that(3) by (intro sum_of_copies_exact) simp
    finally show ?thesis .
  qed
  show ?thesis
    apply (rule exI [of _ "\<lparr>warnings =
                          (case max_examples_per_batch of None \<Rightarrow> []
                           | Some c \<Rightarrow> if c div bsz < 1 \<or> n_samples < c div bsz
                                       then [Max_examples_per_batch_warning c bsz] else []),
                        max_inps_per_batch = cw,
                        final = after_calls metric_func agg_func n_samples ws
                                  (initial_state bsz (device t))\<rparr>"])
    apply (rule exI [of _ k])
    using run count fold exact
    apply (simp add: returned_def mf res_def)
    done
qed

theorem constant_metric_sum_of_copies_witness:
  "first_input [example_input] = Inr example_input \<and> size0 example_input = Inr 2
   \<and> (1::int) \<le> 2 \<and> (1::int) \<le> 10
   \<and> (\<forall>w::int. (\<lambda>w. example_metric) w = example_metric)
   \<and> device example_metric = device example_input
   \<and> shape example_metric = [nat 2] \<and> length (elems example_metric) = nat 2
   \<and> (\<exists>r k. divide_and_aggregate_metrics [example_input] 10 (\<lambda>w. example_metric)
               add_elementwise (Some 7) = Some (Inr r)
        \<and> int k = \<lceil>real_of_int 10 / real_of_int (max_inps_per_batch r)\<rceil>
        \<and> returned r = example_metric\<lparr>elems := map (sum_of_copies k) (elems example_metric)\<rparr>
        \<and> (\<forall>i < length (elems example_metric). \<forall>x.
              elems example_metric ! i = Finite x
              \<and> (\<forall>j < k. f32_add (Finite (real j * x)) (Finite x) = Finite (real (Suc j) * x))
              \<longrightarrow> elems (returned r) ! i = Finite (real k * x)))"
  using constant_metric_sum_of_copies
    [of "[example_input]" example_input 2 10 "\<lambda>w. example_metric" example_metric
        add_elementwise "Some 7", OF _ _ _ _ _ _ _ _ torch_add_add_elementwise]
  by (simp add: first_input_def size0_def example_input_def example_metric_def)

text \<open>A call in which no addition rounds: four iterations over the metric \<open>[0.5, 3]\<close>.\<close>

lemma constant_metric_exact_example:
  "divide_and_aggregate_metrics [example_input] 10 (\<lambda>w. example_metric) add_elementwise (Some 7) =
     Some (Inr \<lparr>warnings = [], max_inps_per_batch = 3,
                final = \<lparr>current_n_steps = 10,
                         metrics_sum =
                           \<lparr>device = ''cpu'', shape = [2], elems = [Finite 2, Finite 12]\<rparr>,
                         metric_calls = [3, 3, 3, 1],
                         agg_calls = 4\<rparr>\<rparr>)"
  by (simp add: divide_and_aggregate_metrics_def first_input_def size0_def example_input_def
      check_max_examples_def resolve_max_inps_def floordiv_def initial_state_def torch_zeros_def
      while_loop.simps loop_body_def Let_def example_metric_def add_elementwise_def
      round_f32_def bit_length.simps numeral_2_eq_2)

end
